theory Spec2Isabelle
  imports Complex_Main "HOL-Library.Multiset"
begin

section \<open>Data model: frames of the dataframe engine\<close>

text \<open>
  The script \<^verbatim>\<open>Data_CLEANSING_TP.py\<close> is a sequence of calls into a dataframe engine.
  A frame is a schema (ordered column names with their declared types) and a list of
  rows; a row is a list of cells aligned with the schema; a cell is the absent marker
  \<open>Null\<close> or a value. A double is a finite number, an infinity or NaN; finite
  arithmetic is exact (no rounding, no overflow to infinity). The two integral column
  types share the constructor \<open>IntV\<close>.
\<close>

datatype dtype = IntegerType | LongType | DoubleType | BooleanType | StringType

datatype double = Fin real | PosInf | NegInf | NaN

datatype cell = Null | IntV int | DblV double | BoolV bool | StrV string

datatype error =
    AnalysisException string
  | IllegalArgumentException string
  | NumberFormatException string
  | ArithmeticException string
  | ArrayIndexOutOfBoundsException
  | IndexError

type_synonym row = "cell list"

record dataframe =
  schema :: "(string \<times> dtype) list"
  rows :: "row list"

text \<open>
  A column expression: its result type and its value on a row, which may raise. The
  engine evaluates lazily; the model raises where the value is computed, and the script
  meets the error at its first action on the frame.
\<close>

type_synonym column = "dtype \<times> (row \<Rightarrow> error + cell)"

datatype expected = ExpectString | ExpectNumeric

text \<open>
  The engine behind the global \<^verbatim>\<open>spark\<close> session. What the script leaves to the engine
  and what differs between engine versions is a field of this record:
  \<^item> \<open>ansi_enabled\<close>: the cast and arithmetic policy, which the script does not set
    (off by default before version 4, on by default from version 4). With the policy
    on a cast that fails and an integral overflow raise; with it off they give the
    absent marker or wrap;
  \<^item> \<open>fill_strict\<close>: whether \<^verbatim>\<open>na.fill\<close> raises on a listed column that the frame does
    not have (version 3 and later) or skips it (version 2);
  \<^item> \<open>implicit_cast ex t\<close>: the implicit cast of an operand of type \<open>t\<close> where a text or
    a number is expected and \<open>t\<close> is not one: \<open>None\<close> when the engine refuses the
    expression, else the type and the value of the cast;
  \<^item> \<open>quantile_sketch vs ps err\<close>: the approximate quantiles of the non-empty list of
    values \<open>vs\<close> at the probabilities \<open>ps\<close> with relative error \<open>err\<close>.
\<close>

record session =
  ansi_enabled :: bool
  fill_strict :: bool
  implicit_cast :: "expected \<Rightarrow> dtype \<Rightarrow> (dtype \<times> (cell \<Rightarrow> error + cell)) option"
  quantile_sketch :: "double list \<Rightarrow> real list \<Rightarrow> real \<Rightarrow> double list"

definition bind_err :: "error + 'a \<Rightarrow> ('a \<Rightarrow> error + 'b) \<Rightarrow> error + 'b" where
  "bind_err m f = (case m of Inl e \<Rightarrow> Inl e | Inr x \<Rightarrow> f x)"

definition succeeds :: "error + 'a \<Rightarrow> bool" where
  "succeeds m = (case m of Inl _ \<Rightarrow> False | Inr _ \<Rightarrow> True)"

text \<open>The values of a list of computations, or the first error.\<close>

fun collect :: "(error + 'a) list \<Rightarrow> error + 'a list" where
  "collect [] = Inr []"
| "collect (x # xs) = bind_err x (\<lambda>v. bind_err (collect xs) (\<lambda>vs. Inr (v # vs)))"

definition columns :: "dataframe \<Rightarrow> string list" where
  "columns df = map fst (schema df)"

definition cell_at :: "dataframe \<Rightarrow> string \<Rightarrow> row \<Rightarrow> cell" where
  "cell_at df n r = (case map_of (zip (columns df) r) n of None \<Rightarrow> Null | Some c \<Rightarrow> c)"

text \<open>\<^verbatim>\<open>col(name)\<close> resolved against a frame: an unknown name is an analysis error.\<close>

definition col :: "dataframe \<Rightarrow> string \<Rightarrow> error + column" where
  "col df n = (case map_of (schema df) n of
      None \<Rightarrow> Inl (AnalysisException n)
    | Some t \<Rightarrow> Inr (t, \<lambda>r. Inr (cell_at df n r)))"

text \<open>\<^verbatim>\<open>df.select(names)\<close>: every name must resolve.\<close>

definition select :: "string list \<Rightarrow> dataframe \<Rightarrow> error + dataframe" where
  "select ns df = (case filter (\<lambda>n. n \<notin> set (columns df)) ns of
      n # _ \<Rightarrow> Inl (AnalysisException n)
    | [] \<Rightarrow> Inr \<lparr>schema = map (\<lambda>n. (n, the (map_of (schema df) n))) ns,
               rows = map (\<lambda>r. map (\<lambda>n. cell_at df n r) ns) (rows df)\<rparr>)"

text \<open>
  \<^verbatim>\<open>df.withColumn(name, e)\<close>: the expression is computed on every row; every column of
  that name is replaced by it, or it is appended as a new last column.
\<close>

definition withColumn :: "string \<Rightarrow> column \<Rightarrow> dataframe \<Rightarrow> error + dataframe" where
  "withColumn n e df =
     bind_err (collect (map (snd e) (rows df))) (\<lambda>vs.
       Inr (if n \<in> set (columns df)
            then \<lparr>schema = map (\<lambda>(m, t). if m = n then (m, fst e) else (m, t)) (schema df),
                  rows = map (\<lambda>(r, v). map (\<lambda>(m, c). if m = n then v else c)
                                            (zip (columns df) r))
                             (zip (rows df) vs)\<rparr>
            else \<lparr>schema = schema df @ [(n, fst e)],
                  rows = map (\<lambda>(r, v). r @ [v]) (zip (rows df) vs)\<rparr>))"

subsection \<open>The cast to \<^verbatim>\<open>int\<close>\<close>

text \<open>
  \<^verbatim>\<open>cast("int")\<close>. A text is trimmed of the bytes up to the blank and of DEL at both
  ends, may carry a sign, has digits only apart from that, and must fit 32 bits; with
  the ANSI policy off it may also carry a fractional part, which is dropped. A text that
  is no such number gives the absent marker with the policy off and raises with it on.
  A long out of range wraps to 32 bits, or raises; a double is truncated towards zero,
  and out of range it saturates (NaN gives 0), or raises; a boolean is 1 or 0.
\<close>

definition int_min :: int where "int_min = - 2147483648"

definition int_max :: int where "int_max = 2147483647"

definition wrap32 :: "int \<Rightarrow> int" where
  "wrap32 i = (i + 2147483648) mod 4294967296 - 2147483648"

definition truncate :: "real \<Rightarrow> int" where
  "truncate x = (if 0 \<le> x then \<lfloor>x\<rfloor> else \<lceil>x\<rceil>)"

fun double_to_int :: "double \<Rightarrow> int" where
  "double_to_int NaN = 0"
| "double_to_int PosInf = int_max"
| "double_to_int NegInf = int_min"
| "double_to_int (Fin x) =
    (if real_of_int int_max \<le> x then int_max
     else if x \<le> real_of_int int_min then int_min
     else truncate x)"

fun double_fits_int :: "double \<Rightarrow> bool" where
  "double_fits_int (Fin x) = (\<lfloor>x\<rfloor> \<le> int_max \<and> int_min \<le> \<lceil>x\<rceil>)"
| "double_fits_int _ = False"

definition is_space :: "char \<Rightarrow> bool" where
  "is_space c = (of_char c \<le> (32::nat) \<or> of_char c = (127::nat))"

definition is_digit :: "char \<Rightarrow> bool" where
  "is_digit c = (48 \<le> (of_char c :: nat) \<and> (of_char c :: nat) \<le> 57)"

definition trim :: "string \<Rightarrow> string" where
  "trim s = rev (dropWhile is_space (rev (dropWhile is_space s)))"

fun digits_value :: "int \<Rightarrow> string \<Rightarrow> int" where
  "digits_value acc [] = acc"
| "digits_value acc (c # cs) = digits_value (10 * acc + (of_char c - 48)) cs"

definition string_to_int :: "bool \<Rightarrow> string \<Rightarrow> int option" where
  "string_to_int allow_decimal s =
    (let t = trim s;
         negative = (t \<noteq> [] \<and> hd t = CHR ''-'');
         body = (if t \<noteq> [] \<and> (hd t = CHR ''-'' \<or> hd t = CHR ''+'') then tl t else t);
         whole = (if allow_decimal then takeWhile (\<lambda>c. c \<noteq> CHR ''.'') body else body);
         frac = drop (Suc (length whole)) body;
         v = (if negative then - digits_value 0 whole else digits_value 0 whole)
     in if body = [] \<or> \<not> list_all is_digit whole \<or> \<not> list_all is_digit frac then None
        else if v < int_min \<or> int_max < v then None
        else Some v)"

fun to_int :: "session \<Rightarrow> cell \<Rightarrow> error + cell" where
  "to_int spark Null = Inr Null"
| "to_int spark (IntV i) =
    (if int_min \<le> i \<and> i \<le> int_max then Inr (IntV i)
     else if ansi_enabled spark then Inl (ArithmeticException ''CAST_OVERFLOW'')
     else Inr (IntV (wrap32 i)))"
| "to_int spark (DblV x) =
    (if ansi_enabled spark
     then (if double_fits_int x then Inr (IntV (double_to_int x))
           else Inl (ArithmeticException ''CAST_OVERFLOW''))
     else Inr (IntV (double_to_int x)))"
| "to_int spark (BoolV b) = Inr (IntV (if b then 1 else 0))"
| "to_int spark (StrV s) =
    (case string_to_int (\<not> ansi_enabled spark) s of
       Some i \<Rightarrow> Inr (IntV i)
     | None \<Rightarrow> if ansi_enabled spark then Inl (NumberFormatException ''CAST_INVALID_INPUT'')
               else Inr Null)"

definition cast_int :: "session \<Rightarrow> column \<Rightarrow> column" where
  "cast_int spark e = (IntegerType, \<lambda>r. bind_err (snd e r) (to_int spark))"

subsection \<open>Filling absences, removing duplicates\<close>

text \<open>
  \<^verbatim>\<open>na.fill(value, subs)\<close>: in the columns of \<open>subs\<close> whose type matches the value
  (a number for a numeric column, a text for a text column) an absent cell becomes the
  value, cast to the column's type; in a double column so does a NaN. A column of
  \<open>subs\<close> of another type is ignored.
\<close>

datatype pyvalue = PyInt int | PyStr string

fun fill_cell :: "pyvalue \<Rightarrow> dtype \<Rightarrow> cell option" where
  "fill_cell (PyInt i) IntegerType = Some (IntV (double_to_int (Fin (real_of_int i))))"
| "fill_cell (PyInt i) LongType = Some (IntV i)"
| "fill_cell (PyInt i) DoubleType = Some (DblV (Fin (real_of_int i)))"
| "fill_cell (PyStr s) StringType = Some (StrV s)"
| "fill_cell _ _ = None"

definition fillable :: "dtype \<Rightarrow> cell \<Rightarrow> bool" where
  "fillable t c \<longleftrightarrow> c = Null \<or> (t = DoubleType \<and> c = DblV NaN)"

definition fill_row :: "pyvalue \<Rightarrow> string list \<Rightarrow> (string \<times> dtype) list \<Rightarrow> row \<Rightarrow> row" where
  "fill_row v subs sch r =
     map (\<lambda>((n, t), c). if fillable t c \<and> n \<in> set subs
                        then (case fill_cell v t of None \<Rightarrow> c | Some z \<Rightarrow> z) else c)
         (zip sch r)"

definition na_fill :: "session \<Rightarrow> pyvalue \<Rightarrow> string list \<Rightarrow> dataframe \<Rightarrow> error + dataframe" where
  "na_fill spark v subs df =
    (case filter (\<lambda>n. n \<notin> set (columns df)) subs of
       n # _ \<Rightarrow> if fill_strict spark then Inl (AnalysisException n)
                else Inr (df\<lparr>rows := map (fill_row v subs (schema df)) (rows df)\<rparr>)
     | [] \<Rightarrow> Inr (df\<lparr>rows := map (fill_row v subs (schema df)) (rows df)\<rparr>))"

text \<open>
  \<^verbatim>\<open>dropDuplicates()\<close>: one row of each group of equal rows is kept. The engine leaves
  the order of the result open; the model keeps the order of \<open>remdups\<close>.
\<close>

definition dropDuplicates :: "dataframe \<Rightarrow> dataframe" where
  "dropDuplicates df = df\<lparr>rows := remdups (rows df)\<rparr>"

section \<open>The cleaning stage (lines 35 to 72)\<close>

definition columns_to_keep :: "string list" where
  "columns_to_keep =
    [''product_name'', ''categories'', ''ingredients_text'', ''allergens'', ''traces'',
     ''quantity'', ''serving_size'', ''serving_quantity'', ''nutriscore_score'',
     ''nutriscore_grade'', ''nova_group'', ''ecoscore_score'', ''ecoscore_grade'',
     ''energy-kj_100g'', ''energy-kcal_100g'', ''sugars_100g'', ''fiber_100g'',
     ''proteins_100g'', ''salt_100g'', ''fat_100g'', ''saturated-fat_100g'']"

definition fill_zero_columns :: "string list" where
  "fill_zero_columns =
    [''quantity'', ''serving_quantity'', ''energy-kj_100g'', ''energy-kcal_100g'',
     ''fat_100g'', ''saturated-fat_100g'', ''sugars_100g'',
     ''fiber_100g'', ''proteins_100g'', ''salt_100g'']"

definition fill_undefined_columns :: "string list" where
  "fill_undefined_columns =
    [''product_name'', ''categories'', ''ingredients_text'', ''allergens'', ''traces'',
     ''nutriscore_grade'', ''ecoscore_grade'']"

definition df_filtered :: "session \<Rightarrow> dataframe \<Rightarrow> error + dataframe" where
  "df_filtered spark df_csv =
     bind_err (select (filter (\<lambda>c. c \<in> set (columns df_csv)) columns_to_keep) df_csv)
       (\<lambda>d. bind_err (col d ''quantity'')
         (\<lambda>q. withColumn ''quantity'' (cast_int spark q) d))"

definition df_clean :: "session \<Rightarrow> dataframe \<Rightarrow> error + dataframe" where
  "df_clean spark df_csv =
     bind_err (df_filtered spark df_csv)
       (\<lambda>d. bind_err (na_fill spark (PyInt 0) fill_zero_columns d)
         (\<lambda>d. bind_err (na_fill spark (PyStr ''undefined'') fill_undefined_columns d)
           (\<lambda>d. Inr (dropDuplicates d))))"

text \<open>
  The cleaning stage in the words of the specification: project to the columns to keep
  that the table has, cast \<open>quantity\<close> to an integer, replace an absence by \<open>0\<close> in the
  numeric columns of the first fill list and by \<open>undefined\<close> in the text columns of the
  second, remove the duplicate rows. It is compared with \<open>df_clean\<close> below.
\<close>

definition kept :: "dataframe \<Rightarrow> string list" where
  "kept D = filter (\<lambda>c. c \<in> set (columns D)) columns_to_keep"

definition kept_type :: "dataframe \<Rightarrow> string \<Rightarrow> dtype" where
  "kept_type D n = (if n = ''quantity'' then IntegerType else the (map_of (schema D) n))"

definition cast_value :: "session \<Rightarrow> cell \<Rightarrow> cell" where
  "cast_value spark c = (case to_int spark c of Inl _ \<Rightarrow> Null | Inr v \<Rightarrow> v)"

definition cleaned_cell :: "session \<Rightarrow> dataframe \<Rightarrow> string \<Rightarrow> row \<Rightarrow> cell" where
  "cleaned_cell spark D n r =
    (let c = (if n = ''quantity'' then cast_value spark (cell_at D n r) else cell_at D n r)
     in if \<not> fillable (kept_type D n) c then c
        else if n \<in> set fill_zero_columns \<and> kept_type D n \<in> {IntegerType, LongType}
          then IntV 0
        else if n \<in> set fill_zero_columns \<and> kept_type D n = DoubleType then DblV (Fin 0)
        else if n \<in> set fill_undefined_columns \<and> kept_type D n = StringType
          then StrV ''undefined''
        else c)"

definition cleaned :: "session \<Rightarrow> dataframe \<Rightarrow> dataframe" where
  "cleaned spark D =
     \<lparr>schema = map (\<lambda>n. (n, kept_type D n)) (kept D),
      rows = remdups (map (\<lambda>r. map (\<lambda>n. cleaned_cell spark D n r) (kept D)) (rows D))\<rparr>"

text \<open>
  The tables on which the stage raises nothing: \<open>quantity\<close> is a column (the cast names
  it) and every cast of it succeeds, and on an engine with a strict \<^verbatim>\<open>na.fill\<close> every
  column of the fill lists is a column of the table.
\<close>

definition casts_ok :: "session \<Rightarrow> dataframe \<Rightarrow> bool" where
  "casts_ok spark D =
     list_all (\<lambda>r. succeeds (to_int spark (cell_at D ''quantity'' r))) (rows D)"

definition cleanable :: "session \<Rightarrow> dataframe \<Rightarrow> bool" where
  "cleanable spark D \<longleftrightarrow>
     ''quantity'' \<in> set (columns D) \<and> casts_ok spark D \<and>
     (fill_strict spark \<longrightarrow>
        set fill_zero_columns \<subseteq> set (columns D) \<and>
        set fill_undefined_columns \<subseteq> set (columns D))"

section \<open>Doubles: the engine's order and the arithmetic of the script\<close>

text \<open>
  The engine compares doubles in a total order in which NaN equals itself and is above
  every other value. In the arithmetic of the script's floats a sum of opposite
  infinities and every operation on NaN give NaN.
\<close>

fun dless :: "double \<Rightarrow> double \<Rightarrow> bool" where
  "dless NaN _ = False"
| "dless _ NaN = True"
| "dless PosInf _ = False"
| "dless _ PosInf = True"
| "dless _ NegInf = False"
| "dless NegInf _ = True"
| "dless (Fin x) (Fin y) = (x < y)"

fun dadd :: "double \<Rightarrow> double \<Rightarrow> double" where
  "dadd NaN _ = NaN"
| "dadd _ NaN = NaN"
| "dadd PosInf NegInf = NaN"
| "dadd NegInf PosInf = NaN"
| "dadd PosInf _ = PosInf"
| "dadd _ PosInf = PosInf"
| "dadd NegInf _ = NegInf"
| "dadd _ NegInf = NegInf"
| "dadd (Fin x) (Fin y) = Fin (x + y)"

fun dneg :: "double \<Rightarrow> double" where
  "dneg (Fin x) = Fin (- x)"
| "dneg PosInf = NegInf"
| "dneg NegInf = PosInf"
| "dneg NaN = NaN"

definition dsub :: "double \<Rightarrow> double \<Rightarrow> double" where
  "dsub a b = dadd a (dneg b)"

text \<open>The product of a finite constant and a double.\<close>

fun dscale :: "real \<Rightarrow> double \<Rightarrow> double" where
  "dscale k (Fin x) = Fin (k * x)"
| "dscale k NaN = NaN"
| "dscale k PosInf = (if 0 < k then PosInf else if k < 0 then NegInf else NaN)"
| "dscale k NegInf = (if 0 < k then NegInf else if k < 0 then PosInf else NaN)"

section \<open>Outlier detection (lines 78 to 96)\<close>

definition numeric_columns :: "string list" where
  "numeric_columns =
    [''quantity'', ''serving_quantity'', ''nutriscore_score'', ''ecoscore_score'',
     ''energy-kj_100g'', ''energy-kcal_100g'', ''sugars_100g'', ''fiber_100g'',
     ''proteins_100g'', ''salt_100g'', ''fat_100g'', ''saturated-fat_100g'']"

definition is_numeric :: "dtype \<Rightarrow> bool" where
  "is_numeric t \<longleftrightarrow> t = IntegerType \<or> t = LongType \<or> t = DoubleType"

text \<open>The value of a numeric cell as a double.\<close>

fun as_double :: "cell \<Rightarrow> double option" where
  "as_double (IntV i) = Some (Fin (real_of_int i))"
| "as_double (DblV x) = Some x"
| "as_double _ = None"

text \<open>
  \<^verbatim>\<open>df.approxQuantile(column, probabilities, relativeError)\<close>: the column must resolve
  and be numeric; absent cells and NaN are left out; a column with no value left gives
  the empty list.
\<close>

definition column_doubles :: "dataframe \<Rightarrow> string \<Rightarrow> double list" where
  "column_doubles df c =
     filter (\<lambda>v. v \<noteq> NaN) (List.map_filter (\<lambda>r. as_double (cell_at df c r)) (rows df))"

definition approxQuantile ::
  "session \<Rightarrow> dataframe \<Rightarrow> string \<Rightarrow> real list \<Rightarrow> real \<Rightarrow> error + double list" where
  "approxQuantile spark df c ps err =
    (case map_of (schema df) c of
       None \<Rightarrow> Inl (AnalysisException c)
     | Some t \<Rightarrow>
         if \<not> is_numeric t then Inl (IllegalArgumentException c)
         else if column_doubles df c = [] then Inr []
         else Inr (quantile_sketch spark (column_doubles df c) ps err))"

text \<open>Python's \<^verbatim>\<open>xs[i]\<close> for \<open>i \<ge> 0\<close>.\<close>

definition getitem :: "'a list \<Rightarrow> nat \<Rightarrow> error + 'a" where
  "getitem xs i = (if i < length xs then Inr (xs ! i) else Inl IndexError)"

text \<open>
  Comparisons and \<^verbatim>\<open>|\<close> are three-valued: a comparison with an absent cell is unknown,
  and \<^verbatim>\<open>df.filter\<close> keeps the rows on which the condition is true.
\<close>

definition lt3 :: "cell \<Rightarrow> double \<Rightarrow> bool option" where
  "lt3 c b = map_option (\<lambda>v. dless v b) (as_double c)"

definition gt3 :: "cell \<Rightarrow> double \<Rightarrow> bool option" where
  "gt3 c b = map_option (\<lambda>v. dless b v) (as_double c)"

fun or3 :: "bool option \<Rightarrow> bool option \<Rightarrow> bool option" where
  "or3 (Some True) _ = Some True"
| "or3 _ (Some True) = Some True"
| "or3 (Some False) (Some False) = Some False"
| "or3 _ _ = None"

definition filter_df :: "(row \<Rightarrow> bool option) \<Rightarrow> dataframe \<Rightarrow> dataframe" where
  "filter_df p df = df\<lparr>rows := filter (\<lambda>r. p r = Some True) (rows df)\<rparr>"

text \<open>The body of the loop for one column: the frame stored in \<^verbatim>\<open>outliers[column]\<close>.\<close>

definition outliers_of :: "session \<Rightarrow> dataframe \<Rightarrow> string \<Rightarrow> error + dataframe" where
  "outliers_of spark df column =
     bind_err (approxQuantile spark df column [0.25, 0.75] 0.01) (\<lambda>quantiles.
     bind_err (getitem quantiles 0) (\<lambda>q1.
     bind_err (getitem quantiles 1) (\<lambda>q3.
       let iqr = dsub q3 q1;
           lower_bound = dsub q1 (dscale 1.5 iqr);
           upper_bound = dadd q3 (dscale 1.5 iqr)
       in if column \<in> set (columns df)
          then Inr (filter_df (\<lambda>r. or3 (lt3 (cell_at df column r) lower_bound)
                                       (gt3 (cell_at df column r) upper_bound)) df)
          else Inl (AnalysisException column))))"

fun outliers_loop ::
  "session \<Rightarrow> dataframe \<Rightarrow> string list \<Rightarrow> (string \<rightharpoonup> dataframe) \<Rightarrow> error + (string \<rightharpoonup> dataframe)" where
  "outliers_loop spark df [] outliers = Inr outliers"
| "outliers_loop spark df (column # cs) outliers =
     bind_err (outliers_of spark df column)
       (\<lambda>out. outliers_loop spark df cs (outliers(column \<mapsto> out)))"

section \<open>Derived columns and statistics (lines 106 to 132)\<close>

text \<open>
  An operand where a text or a number is expected: of that kind it is taken as it is,
  of another type it goes through the engine's implicit cast or the expression is
  refused.
\<close>

definition coerce :: "session \<Rightarrow> expected \<Rightarrow> column \<Rightarrow> error + column" where
  "coerce spark ex e =
    (if (ex = ExpectString \<and> fst e = StringType) \<or> (ex = ExpectNumeric \<and> is_numeric (fst e))
     then Inr e
     else (case implicit_cast spark ex (fst e) of
             None \<Rightarrow> Inl (AnalysisException ''DATATYPE_MISMATCH'')
           | Some (t, f) \<Rightarrow> Inr (t, \<lambda>r. bind_err (snd e r) f)))"

text \<open>
  \<^verbatim>\<open>split(e, ",").getItem(i)\<close>: the text is cut at every separator, empty pieces kept, so
  the result has at least one piece; the item of an absent text is absent; an item
  past the last piece is absent, or raises under the ANSI policy.
\<close>

fun split_on :: "char \<Rightarrow> string \<Rightarrow> string list" where
  "split_on d [] = [[]]"
| "split_on d (c # cs) =
     (if c = d then [] # split_on d cs
      else (case split_on d cs of [] \<Rightarrow> [[c]] | w # ws \<Rightarrow> (c # w) # ws))"

definition item_of :: "session \<Rightarrow> char \<Rightarrow> nat \<Rightarrow> cell \<Rightarrow> error + cell" where
  "item_of spark d i c =
    (case c of
       StrV s \<Rightarrow> (case getitem (split_on d s) i of
                    Inr w \<Rightarrow> Inr (StrV w)
                  | Inl _ \<Rightarrow> if ansi_enabled spark then Inl ArrayIndexOutOfBoundsException
                            else Inr Null)
     | _ \<Rightarrow> Inr Null)"

definition split_getItem :: "session \<Rightarrow> char \<Rightarrow> nat \<Rightarrow> column \<Rightarrow> error + column" where
  "split_getItem spark d i e =
     bind_err (coerce spark ExpectString e)
       (\<lambda>s. Inr (StringType, \<lambda>r. bind_err (snd s r) (item_of spark d i)))"

definition with_main_category :: "session \<Rightarrow> dataframe \<Rightarrow> error + dataframe" where
  "with_main_category spark df =
     bind_err (col df ''categories_tags'') (\<lambda>c.
     bind_err (split_getItem spark CHR '','' 0 c) (\<lambda>e.
       withColumn ''main_category'' e df))"

text \<open>
  Arithmetic on two numeric operands: with a double operand the result is a double,
  two integral operands stay integral and, out of range, wrap or raise under the ANSI
  policy; an absent operand gives an absent result.
\<close>

fun arith_type :: "dtype \<Rightarrow> dtype \<Rightarrow> dtype option" where
  "arith_type IntegerType IntegerType = Some IntegerType"
| "arith_type IntegerType LongType = Some LongType"
| "arith_type LongType IntegerType = Some LongType"
| "arith_type LongType LongType = Some LongType"
| "arith_type DoubleType t = (if is_numeric t then Some DoubleType else None)"
| "arith_type t DoubleType = (if is_numeric t then Some DoubleType else None)"
| "arith_type _ _ = None"

definition wrap64 :: "int \<Rightarrow> int" where
  "wrap64 i = (i + 9223372036854775808) mod 18446744073709551616 - 9223372036854775808"

definition integral :: "session \<Rightarrow> dtype \<Rightarrow> int \<Rightarrow> error + cell" where
  "integral spark t v =
    (let lo = (if t = IntegerType then int_min else - 9223372036854775808);
         hi = (if t = IntegerType then int_max else 9223372036854775807)
     in if lo \<le> v \<and> v \<le> hi then Inr (IntV v)
        else if ansi_enabled spark then Inl (ArithmeticException ''ARITHMETIC_OVERFLOW'')
        else Inr (IntV (if t = IntegerType then wrap32 v else wrap64 v)))"

definition arith_cells ::
  "session \<Rightarrow> dtype \<Rightarrow> (int \<Rightarrow> int \<Rightarrow> int) \<Rightarrow> (double \<Rightarrow> double \<Rightarrow> double) \<Rightarrow> cell \<Rightarrow> cell \<Rightarrow> error + cell" where
  "arith_cells spark t fi fd x y =
    (if t = DoubleType
     then (case (as_double x, as_double y) of
             (Some u, Some v) \<Rightarrow> Inr (DblV (fd u v))
           | _ \<Rightarrow> Inr Null)
     else (case (x, y) of
             (IntV u, IntV v) \<Rightarrow> integral spark t (fi u v)
           | _ \<Rightarrow> Inr Null))"

definition arith ::
  "session \<Rightarrow> (int \<Rightarrow> int \<Rightarrow> int) \<Rightarrow> (double \<Rightarrow> double \<Rightarrow> double) \<Rightarrow> column \<Rightarrow> column \<Rightarrow> error + column" where
  "arith spark fi fd a b =
     bind_err (coerce spark ExpectNumeric a) (\<lambda>a.
     bind_err (coerce spark ExpectNumeric b) (\<lambda>b.
       case arith_type (fst a) (fst b) of
         None \<Rightarrow> Inl (AnalysisException ''DATATYPE_MISMATCH'')
       | Some t \<Rightarrow>
           Inr (t, \<lambda>r. bind_err (snd a r) (\<lambda>x. bind_err (snd b r) (\<lambda>y.
                         arith_cells spark t fi fd x y)))))"

definition with_nutrition_score :: "session \<Rightarrow> dataframe \<Rightarrow> error + dataframe" where
  "with_nutrition_score spark df =
     bind_err (col df ''energy_100g'') (\<lambda>energy.
     bind_err (col df ''fiber_100g'') (\<lambda>fiber.
     bind_err (arith spark (-) dsub energy fiber) (\<lambda>d.
     bind_err (col df ''sugars_100g'') (\<lambda>sugars.
     bind_err (arith spark (+) dadd d sugars) (\<lambda>score.
       withColumn ''nutrition_score'' score df)))))"

text \<open>
  \<^verbatim>\<open>avg(name)\<close> over a group: the mean, as a double, of the cells that are present,
  absent when none is; \<^verbatim>\<open>groupBy(key).agg(...)\<close> has one row for each distinct key, the
  absent key included.
\<close>

fun ddiv :: "double \<Rightarrow> nat \<Rightarrow> double" where
  "ddiv (Fin x) n = Fin (x / real n)"
| "ddiv d n = d"

definition mean :: "double list \<Rightarrow> cell" where
  "mean vs = (if vs = [] then Null else DblV (ddiv (foldl dadd (Fin 0) vs) (length vs)))"

definition avg :: "session \<Rightarrow> column \<Rightarrow> error + (row list \<Rightarrow> error + cell)" where
  "avg spark e =
     bind_err (coerce spark ExpectNumeric e)
       (\<lambda>e. Inr (\<lambda>rs. bind_err (collect (map (snd e) rs))
                        (\<lambda>cs. Inr (mean (List.map_filter as_double cs)))))"

definition stats :: "session \<Rightarrow> dataframe \<Rightarrow> error + dataframe" where
  "stats spark df =
    (case map_of (schema df) ''main_category'' of
       None \<Rightarrow> Inl (AnalysisException ''main_category'')
     | Some kt \<Rightarrow>
         bind_err (bind_err (col df ''energy_100g'') (avg spark)) (\<lambda>avg_energy.
         bind_err (bind_err (col df ''sugars_100g'') (avg spark)) (\<lambda>avg_sugars.
         bind_err (bind_err (col df ''fiber_100g'') (avg spark)) (\<lambda>avg_fiber.
         bind_err
           (collect
             (map (\<lambda>k. let g = filter (\<lambda>r. cell_at df ''main_category'' r = k) (rows df)
                       in bind_err (avg_energy g) (\<lambda>e.
                          bind_err (avg_sugars g) (\<lambda>s.
                          bind_err (avg_fiber g) (\<lambda>f. Inr [k, e, s, f]))))
                  (remdups (map (cell_at df ''main_category'') (rows df)))))
           (\<lambda>rs. Inr \<lparr>schema = [(''main_category'', kt), (''avg_energy'', DoubleType),
                                 (''avg_sugars'', DoubleType), (''avg_fiber'', DoubleType)],
                       rows = rs\<rparr>)))))"

section \<open>The script\<close>

text \<open>
  The statements in the order of the file; the first error ends the run. The result is
  the final \<^verbatim>\<open>df_clean\<close>, the dictionary \<^verbatim>\<open>outliers\<close> and the frame \<^verbatim>\<open>stats\<close>.
\<close>

definition script ::
  "session \<Rightarrow> dataframe \<Rightarrow> error + (dataframe \<times> (string \<rightharpoonup> dataframe) \<times> dataframe)" where
  "script spark df_csv =
     bind_err (df_clean spark df_csv) (\<lambda>d.
     bind_err (outliers_loop spark d numeric_columns Map.empty) (\<lambda>outliers.
     bind_err (with_main_category spark d) (\<lambda>d.
     bind_err (with_nutrition_score spark d) (\<lambda>d.
     bind_err (stats spark d) (\<lambda>st. Inr (d, outliers, st))))))"

text \<open>The later stages run on the cleaned frame, as the script runs them.\<close>

definition cleaned_then ::
  "(session \<Rightarrow> dataframe \<Rightarrow> error + dataframe) \<Rightarrow> session \<Rightarrow> dataframe \<Rightarrow> error + dataframe" where
  "cleaned_then stage spark df_csv = bind_err (df_clean spark df_csv) (stage spark)"


text \<open>The cells of one column of a result, for stating examples.\<close>

definition column_cells :: "error + dataframe \<Rightarrow> string \<Rightarrow> error + cell list" where
  "column_cells m n = bind_err m (\<lambda>d. Inr (map (cell_at d n) (rows d)))"

text \<open>
  The tables whose fill-list columns were read with the type their fill value needs: a
  numeric type in the zero list (\<open>quantity\<close> apart, which the stage casts itself) and
  text in the \<open>undefined\<close> list.
\<close>

definition fill_types_match :: "dataframe \<Rightarrow> bool" where
  "fill_types_match D =
     list_all (\<lambda>(n, t). (n \<in> set fill_zero_columns \<and> n \<noteq> ''quantity'' \<longrightarrow> is_numeric t) \<and>
                        (n \<in> set fill_undefined_columns \<longrightarrow> t = StringType))
              (schema D)"

section \<open>Concrete engines and tables for the examples\<close>

text \<open>
  Two engines with a strict \<^verbatim>\<open>na.fill\<close>, exact sample quantiles and no implicit cast,
  one with the ANSI policy off and one with it on; and tables with the columns of the
  product export that the script reads.
\<close>

definition exact_quantile :: "double list \<Rightarrow> real \<Rightarrow> double" where
  "exact_quantile vs p =
    (let k = nat \<lceil>p * real (length vs)\<rceil> - 1;
         lows = filter (\<lambda>v. v = NegInf) vs;
         fins = sort (List.map_filter (\<lambda>v. case v of Fin x \<Rightarrow> Some x | _ \<Rightarrow> None) vs)
     in if k < length lows then NegInf
        else if k - length lows < length fins then Fin (fins ! (k - length lows))
        else PosInf)"

definition engine0 :: session where
  "engine0 =
     \<lparr>ansi_enabled = False,
      fill_strict = True,
      implicit_cast = (\<lambda>ex t. None),
      quantile_sketch = (\<lambda>vs ps err. map (exact_quantile vs) ps)\<rparr>"

definition engine_ansi :: session where
  "engine_ansi = engine0\<lparr>ansi_enabled := True\<rparr>"

definition off_schema :: "(string \<times> dtype) list" where
  "off_schema =
    [(''code'', LongType), (''product_name'', StringType), (''categories'', StringType),
     (''categories_tags'', StringType), (''ingredients_text'', StringType),
     (''allergens'', StringType), (''traces'', StringType), (''quantity'', StringType),
     (''serving_size'', StringType), (''serving_quantity'', DoubleType),
     (''nutriscore_score'', IntegerType), (''nutriscore_grade'', StringType),
     (''nova_group'', IntegerType), (''ecoscore_score'', IntegerType),
     (''ecoscore_grade'', StringType), (''energy-kj_100g'', DoubleType),
     (''energy-kcal_100g'', DoubleType), (''energy_100g'', DoubleType),
     (''fat_100g'', DoubleType), (''saturated-fat_100g'', DoubleType),
     (''sugars_100g'', DoubleType), (''fiber_100g'', DoubleType),
     (''proteins_100g'', DoubleType), (''salt_100g'', DoubleType)]"

definition cola :: row where
  "cola = [IntV 1, StrV ''cola'', Null, StrV ''beverages,soda'', Null, Null,
     Null, StrV ''500g'', Null, Null, Null, Null, Null, Null, Null, DblV (Fin 180),
     DblV (Fin 42), DblV (Fin 180), Null, Null, DblV (Fin 10.6), Null, Null, Null]"

definition tonic :: row where
  "tonic = [IntV 2, StrV ''tonic'', StrV ''drinks'', StrV ''beverages,soda,sugary-drinks'',
     Null, Null, Null, StrV ''330'', StrV ''25cl'', DblV (Fin 250), IntV 3, StrV ''b'',
     IntV 4, IntV 40, Null, DblV (Fin 418), DblV (Fin 100), DblV (Fin 100), DblV (Fin 0),
     DblV (Fin 0), DblV (Fin 20), DblV (Fin 5), DblV (Fin 0), DblV (Fin 0.02)]"

definition water :: row where
  "water = [IntV 3, StrV ''water'', Null, Null, Null, Null, Null, StrV '' 1500 '', Null,
     Null, Null, Null, Null, Null, Null, Null, Null, Null, Null, Null, Null, Null, Null,
     DblV NaN]"

definition crisps :: row where
  "crisps = [IntV 4, StrV ''crisps'', StrV ''snacks'', StrV ''snacks,salty'', Null, Null,
     Null, StrV ''150'', Null, DblV (Fin 30), IntV 12, StrV ''d'', IntV 4, IntV 30,
     StrV ''c'', DblV (Fin 418), DblV (Fin 100), DblV (Fin 100), DblV (Fin 30),
     DblV (Fin 3), DblV (Fin 1), DblV (Fin 4), DblV (Fin 6), DblV (Fin 1.5)]"

definition crackers :: row where
  "crackers = [IntV 5, StrV ''crackers'', StrV ''snacks'', StrV ''snacks'', Null, Null,
     Null, StrV ''200'', Null, DblV (Fin 25), IntV 14, StrV ''d'', IntV 4, IntV 35,
     StrV ''c'', DblV (Fin 836), DblV (Fin 200), DblV (Fin 200), DblV (Fin 20),
     DblV (Fin 2), DblV (Fin 3), DblV (Fin 2), DblV (Fin 8), DblV (Fin 2)]"

text \<open>A table with a \<open>quantity\<close> that is no number, and tables whose casts all succeed.\<close>

definition products :: dataframe where
  "products = \<lparr>schema = off_schema, rows = [cola, tonic]\<rparr>"

definition drinks :: dataframe where
  "drinks = \<lparr>schema = off_schema, rows = [tonic, water]\<rparr>"

definition snacks :: dataframe where
  "snacks = \<lparr>schema = off_schema, rows = [crisps, crackers]\<rparr>"

text \<open>The table \<open>drinks\<close> read with \<open>serving_quantity\<close> inferred as text.\<close>

definition drinks_text :: dataframe where
  "drinks_text =
     \<lparr>schema = map (\<lambda>(n, t). if n = ''serving_quantity'' then (n, StringType) else (n, t))
                  off_schema,
      rows = [tonic[9 := StrV ''250 ml''], water]\<rparr>"


text \<open>What the cleaning stage returns on \<open>drinks\<close>.\<close>

definition drinks_clean :: dataframe where
  "drinks_clean =
     \<lparr>schema =
        [(''product_name'', StringType), (''categories'', StringType),
         (''ingredients_text'', StringType), (''allergens'', StringType),
         (''traces'', StringType), (''quantity'', IntegerType),
         (''serving_size'', StringType), (''serving_quantity'', DoubleType),
         (''nutriscore_score'', IntegerType), (''nutriscore_grade'', StringType),
         (''nova_group'', IntegerType), (''ecoscore_score'', IntegerType),
         (''ecoscore_grade'', StringType), (''energy-kj_100g'', DoubleType),
         (''energy-kcal_100g'', DoubleType), (''sugars_100g'', DoubleType),
         (''fiber_100g'', DoubleType), (''proteins_100g'', DoubleType),
         (''salt_100g'', DoubleType), (''fat_100g'', DoubleType),
         (''saturated-fat_100g'', DoubleType)],
      rows =
        [[StrV ''tonic'', StrV ''drinks'', StrV ''undefined'', StrV ''undefined'',
          StrV ''undefined'', IntV 330, StrV ''25cl'', DblV (Fin 250), IntV 3, StrV ''b'',
          IntV 4, IntV 40, StrV ''undefined'', DblV (Fin 418), DblV (Fin 100),
          DblV (Fin 20), DblV (Fin 5), DblV (Fin 0), DblV (Fin 0.02), DblV (Fin 0),
          DblV (Fin 0)],
         [StrV ''water'', StrV ''undefined'', StrV ''undefined'', StrV ''undefined'',
          StrV ''undefined'', IntV 1500, Null, DblV (Fin 0), Null, StrV ''undefined'',
          Null, Null, StrV ''undefined'', DblV (Fin 0), DblV (Fin 0), DblV (Fin 0),
          DblV (Fin 0), DblV (Fin 0), DblV (Fin 0), DblV (Fin 0), DblV (Fin 0)]]\<rparr>"


definition snacks_frame :: dataframe where
  "snacks_frame =
     \<lparr>schema = [(''main_category'', StringType), (''energy_100g'', DoubleType),
               (''sugars_100g'', DoubleType), (''fiber_100g'', DoubleType)],
      rows = [[StrV ''snacks'', DblV (Fin 100), DblV (Fin 1), DblV (Fin 4)],
              [StrV ''snacks'', DblV (Fin 200), DblV (Fin 3), DblV (Fin 2)]]\<rparr>"

definition scores_frame :: dataframe where
  "scores_frame =
     \<lparr>schema = [(''product_name'', StringType), (''nutriscore_score'', IntegerType)],
      rows = [[StrV ''a'', IntV 1], [StrV ''b'', IntV 2], [StrV ''c'', IntV 2],
              [StrV ''d'', IntV 3], [StrV ''e'', IntV 4], [StrV ''f'', IntV 4],
              [StrV ''g'', IntV 7], [StrV ''h'', IntV 20], [StrV ''i'', Null]]\<rparr>"




section \<open>Properties of the cleaning stage\<close>

subsection \<open>The stage computes the cleaned table\<close>

lemma zip_map_same: "zip xs (map f xs) = map (\<lambda>x. (x, f x)) xs"
  by (induction xs) auto

lemma zip_map_map_same: "zip (map f xs) (map g xs) = map (\<lambda>x. (f x, g x)) xs"
  by (induction xs) auto

lemma map_of_zip_map_same:
  "map_of (zip xs (map f xs)) n = (if n \<in> set xs then Some (f n) else None)"
  by (induction xs) auto

lemma map_of_graph:
  "map_of (map (\<lambda>x. (x, f x)) xs) n = (if n \<in> set xs then Some (f n) else None)"
  by (induction xs) auto

lemma succeeds_simps [simp]: "succeeds (Inr x)" "\<not> succeeds (Inl e)"
  by (simp_all add: succeeds_def)

lemma succeeds_iff: "succeeds m \<longleftrightarrow> (\<exists>x. m = Inr x)"
  by (cases m) auto

lemma bind_err_simps [simp]: "bind_err (Inr x) f = f x" "bind_err (Inl e) f = Inl e"
  by (simp_all add: bind_err_def)

lemma collect_map_Inr:
  "(\<And>x. x \<in> set xs \<Longrightarrow> f x = Inr (g x)) \<Longrightarrow> collect (map f xs) = Inr (map g xs)"
  by (induction xs) auto

lemma collect_map_succeeds:
  "succeeds (collect (map f xs)) \<longleftrightarrow> list_all (\<lambda>x. succeeds (f x)) xs"
proof (induction xs)
  case Nil
  then show ?case by simp
next
  case (Cons x xs)
  then show ?case
    by (cases "f x"; cases "collect (map f xs)") auto
qed

lemma columns_graph [simp]:
  "columns \<lparr>schema = map (\<lambda>n. (n, f n)) ns, rows = R\<rparr> = ns"
  by (simp add: columns_def comp_def)

lemma cell_at_graph [simp]:
  "cell_at \<lparr>schema = map (\<lambda>n. (n, f n)) ns, rows = R\<rparr> n (map g ns) =
     (if n \<in> set ns then g n else Null)"
  by (simp add: cell_at_def map_of_zip_map_same)

lemma col_graph:
  "col \<lparr>schema = map (\<lambda>n. (n, f n)) ns, rows = R\<rparr> n =
     (if n \<in> set ns
      then Inr (f n, \<lambda>r. Inr (cell_at \<lparr>schema = map (\<lambda>n. (n, f n)) ns, rows = R\<rparr> n r))
      else Inl (AnalysisException n))"
  by (simp add: col_def map_of_graph)

lemma withColumn_graph:
  assumes "q \<in> set ns" and "\<And>r. r \<in> set R \<Longrightarrow> snd e (map (g r) ns) = Inr (h r)"
  shows "withColumn q e \<lparr>schema = map (\<lambda>n. (n, f n)) ns, rows = map (\<lambda>r. map (g r) ns) R\<rparr> =
     Inr \<lparr>schema = map (\<lambda>n. (n, if n = q then fst e else f n)) ns,
          rows = map (\<lambda>r. map (\<lambda>n. if n = q then h r else g r n) ns) R\<rparr>"
proof -
  have "collect (map (\<lambda>r. snd e (map (g r) ns)) R) = Inr (map h R)"
    by (rule collect_map_Inr) (rule assms(2))
  then show ?thesis
    using assms(1)
    by (simp add: withColumn_def comp_def zip_map_map_same zip_map_same)
qed

lemma withColumn_graph_fails:
  assumes "\<not> list_all (\<lambda>r. succeeds (snd e (map (g r) ns))) R"
  shows "\<not> succeeds (withColumn q e \<lparr>schema = map (\<lambda>n. (n, f n)) ns, rows = map (\<lambda>r. map (g r) ns) R\<rparr>)"
proof -
  have "\<not> succeeds (collect (map (\<lambda>r. snd e (map (g r) ns)) R))"
    using assms by (simp add: collect_map_succeeds)
  then obtain x where "collect (map (\<lambda>r. snd e (map (g r) ns)) R) = Inl x"
    by (cases "collect (map (\<lambda>r. snd e (map (g r) ns)) R)") auto
  then show ?thesis by (simp add: withColumn_def comp_def)
qed

lemma select_kept:
  "select (filter (\<lambda>c. c \<in> set (columns D)) columns_to_keep) D =
     Inr \<lparr>schema = map (\<lambda>n. (n, the (map_of (schema D) n))) (kept D),
          rows = map (\<lambda>r. map (\<lambda>n. cell_at D n r) (kept D)) (rows D)\<rparr>"
  by (simp add: select_def kept_def)

lemma quantity_kept: "''quantity'' \<in> set (kept D) \<longleftrightarrow> ''quantity'' \<in> set (columns D)"
  by (simp add: kept_def columns_to_keep_def)

lemma cast_value_eq: "to_int spark c = Inr v \<Longrightarrow> cast_value spark c = v"
  by (simp add: cast_value_def)

lemma to_int_cast_value: "succeeds (to_int spark c) \<Longrightarrow> to_int spark c = Inr (cast_value spark c)"
  by (cases "to_int spark c") (auto simp: cast_value_def)

lemma df_filtered_ok:
  assumes "''quantity'' \<in> set (columns D)" and "casts_ok spark D"
  shows "df_filtered spark D =
     Inr \<lparr>schema = map (\<lambda>n. (n, kept_type D n)) (kept D),
          rows = map (\<lambda>r. map (\<lambda>n. if n = ''quantity'' then cast_value spark (cell_at D n r)
                                     else cell_at D n r) (kept D)) (rows D)\<rparr>"
proof -
  have q: "''quantity'' \<in> set (kept D)" using assms(1) by (simp add: quantity_kept)
  let ?d = "\<lparr>schema = map (\<lambda>n. (n, the (map_of (schema D) n))) (kept D),
          rows = map (\<lambda>r. map (\<lambda>n. cell_at D n r) (kept D)) (rows D)\<rparr>"
  let ?e = "cast_int spark (the (map_of (schema D) ''quantity''), \<lambda>r. Inr (cell_at ?d ''quantity'' r))"
  have "snd ?e (map (\<lambda>n. cell_at D n r) (kept D)) = Inr (cast_value spark (cell_at D ''quantity'' r))"
    if "r \<in> set (rows D)" for r
  proof -
    have "succeeds (to_int spark (cell_at D ''quantity'' r))"
      using assms(2) that by (simp add: casts_ok_def list_all_iff)
    then show ?thesis using q by (simp add: cast_int_def to_int_cast_value)
  qed
  then have "withColumn ''quantity'' ?e ?d =
     Inr \<lparr>schema = map (\<lambda>n. (n, if n = ''quantity'' then fst ?e else the (map_of (schema D) n))) (kept D),
          rows = map (\<lambda>r. map (\<lambda>n. if n = ''quantity'' then cast_value spark (cell_at D ''quantity'' r)
                                     else cell_at D n r) (kept D)) (rows D)\<rparr>"
    by (rule withColumn_graph [OF q])
  then show ?thesis
    unfolding df_filtered_def select_kept
    using q by (simp add: col_graph kept_type_def cast_int_def cong: map_cong if_cong)
qed

lemma df_filtered_fails:
  assumes "\<not> (''quantity'' \<in> set (columns D) \<and> casts_ok spark D)"
  shows "\<not> succeeds (df_filtered spark D)"
proof (cases "''quantity'' \<in> set (columns D)")
  case False
  then show ?thesis
    unfolding df_filtered_def select_kept by (simp add: col_graph quantity_kept)
next
  case True
  then have q: "''quantity'' \<in> set (kept D)" by (simp add: quantity_kept)
  from True assms have n: "\<not> casts_ok spark D" by simp
  let ?d = "\<lparr>schema = map (\<lambda>n. (n, the (map_of (schema D) n))) (kept D),
          rows = map (\<lambda>r. map (\<lambda>n. cell_at D n r) (kept D)) (rows D)\<rparr>"
  let ?e = "cast_int spark (the (map_of (schema D) ''quantity''), \<lambda>r. Inr (cell_at ?d ''quantity'' r))"
  have "\<not> list_all (\<lambda>r. succeeds (snd ?e (map (\<lambda>n. cell_at D n r) (kept D)))) (rows D)"
    using n q by (simp add: casts_ok_def cast_int_def)
  then have "\<not> succeeds (withColumn ''quantity'' ?e ?d)"
    by (rule withColumn_graph_fails)
  then show ?thesis
    unfolding df_filtered_def select_kept using q by (simp add: col_graph)
qed

lemma fill_row_graph:
  "fill_row v subs (map (\<lambda>n. (n, T n)) ns) (map h ns) =
     map (\<lambda>n. if fillable (T n) (h n) \<and> n \<in> set subs
               then (case fill_cell v (T n) of None \<Rightarrow> h n | Some z \<Rightarrow> z) else h n) ns"
  unfolding fill_row_def by (induction ns) auto

lemma na_fill_graph:
  "na_fill spark v subs \<lparr>schema = map (\<lambda>n. (n, T n)) ns, rows = map (\<lambda>r. map (g r) ns) R\<rparr> =
    (if fill_strict spark \<and> \<not> set subs \<subseteq> set ns
     then Inl (AnalysisException (hd (filter (\<lambda>n. n \<notin> set ns) subs)))
     else Inr \<lparr>schema = map (\<lambda>n. (n, T n)) ns,
               rows = map (\<lambda>r. map (\<lambda>n. if fillable (T n) (g r n) \<and> n \<in> set subs
                  then (case fill_cell v (T n) of None \<Rightarrow> g r n | Some z \<Rightarrow> z) else g r n) ns) R\<rparr>)"
proof -
  have "(filter (\<lambda>n. n \<notin> set ns) subs = []) = (set subs \<subseteq> set ns)"
    by (auto simp: filter_empty_conv)
  then show ?thesis
    by (auto simp: na_fill_def fill_row_graph comp_def split: list.splits)
qed

lemma double_to_int_0 [simp]: "double_to_int (Fin 0) = 0"
  by (simp add: int_max_def int_min_def truncate_def)

lemma fill_twice_cell:
  "(let c1 = (if fillable t c \<and> n \<in> set fill_zero_columns
              then (case fill_cell (PyInt 0) t of None \<Rightarrow> c | Some z \<Rightarrow> z) else c)
    in if fillable t c1 \<and> n \<in> set fill_undefined_columns
       then (case fill_cell (PyStr ''undefined'') t of None \<Rightarrow> c1 | Some z \<Rightarrow> z) else c1) =
   (if \<not> fillable t c then c
    else if n \<in> set fill_zero_columns \<and> t \<in> {IntegerType, LongType} then IntV 0
    else if n \<in> set fill_zero_columns \<and> t = DoubleType then DblV (Fin 0)
    else if n \<in> set fill_undefined_columns \<and> t = StringType then StrV ''undefined''
    else c)"
  by (cases t) (auto simp: Let_def fillable_def int_min_def int_max_def truncate_def)

lemma kept_subset:
  "set xs \<subseteq> set columns_to_keep \<Longrightarrow> set xs \<subseteq> set (kept D) \<longleftrightarrow> set xs \<subseteq> set (columns D)"
  by (auto simp: kept_def)

lemma fill_lists_kept:
  "set fill_zero_columns \<subseteq> set columns_to_keep"
  "set fill_undefined_columns \<subseteq> set columns_to_keep"
  by (simp_all add: fill_zero_columns_def fill_undefined_columns_def columns_to_keep_def)

lemma df_clean_cleaned: "cleanable spark D \<Longrightarrow> df_clean spark D = Inr (cleaned spark D)"
  unfolding df_clean_def cleanable_def
  apply (clarify)
  apply (simp only: df_filtered_ok bind_err_simps na_fill_graph)
  apply (simp add: na_fill_graph kept_subset fill_lists_kept dropDuplicates_def cleaned_def)
  apply (simp add: cleaned_cell_def fill_twice_cell [unfolded Let_def] Let_def cong: map_cong)
  done

lemma df_clean_Inr:
  assumes "df_clean spark D = Inr d"
  shows "cleanable spark D"
proof -
  have f: "''quantity'' \<in> set (columns D) \<and> casts_ok spark D"
  proof (rule ccontr)
    assume "\<not> (''quantity'' \<in> set (columns D) \<and> casts_ok spark D)"
    then have "\<not> succeeds (df_filtered spark D)" by (rule df_filtered_fails)
    then obtain e where "df_filtered spark D = Inl e"
      by (cases "df_filtered spark D") auto
    with assms show False by (simp add: df_clean_def)
  qed
  then have eq: "df_filtered spark D =
     Inr \<lparr>schema = map (\<lambda>n. (n, kept_type D n)) (kept D),
          rows = map (\<lambda>r. map (\<lambda>n. if n = ''quantity'' then cast_value spark (cell_at D n r)
                                     else cell_at D n r) (kept D)) (rows D)\<rparr>"
    by (simp add: df_filtered_ok)
  have "fill_strict spark \<longrightarrow>
        set fill_zero_columns \<subseteq> set (columns D) \<and> set fill_undefined_columns \<subseteq> set (columns D)"
    using assms unfolding df_clean_def eq
    by (auto simp add: na_fill_graph kept_subset fill_lists_kept split: if_splits)
  with f show ?thesis by (simp add: cleanable_def)
qed

lemma df_clean_iff: "df_clean spark D = Inr d \<longleftrightarrow> cleanable spark D \<and> d = cleaned spark D"
  using df_clean_cleaned [of spark D] df_clean_Inr [of spark D d] by auto

text \<open>The cast to \<^verbatim>\<open>int\<close> stays within 32 bits.\<close>

lemma wrap32_range: "int_min \<le> wrap32 i \<and> wrap32 i \<le> int_max"
  unfolding wrap32_def int_min_def int_max_def
  using pos_mod_bound [of 4294967296 "i + 2147483648"] pos_mod_sign [of 4294967296 "i + 2147483648"]
  by linarith

lemma double_to_int_range: "int_min \<le> double_to_int x \<and> double_to_int x \<le> int_max"
proof (cases x)
  case (Fin y)
  then show ?thesis
    by (auto simp: int_min_def int_max_def truncate_def le_floor_iff floor_le_iff
        ceiling_le_iff le_ceiling_iff)
qed (simp_all add: int_min_def int_max_def)

lemma string_to_int_range: "string_to_int b s = Some i \<Longrightarrow> int_min \<le> i \<and> i \<le> int_max"
  unfolding string_to_int_def by (auto simp: Let_def split: if_splits)

lemma to_int_range:
  assumes "to_int spark c = Inr (IntV i)"
  shows "int_min \<le> i \<and> i \<le> int_max"
proof (cases c)
  case (IntV j)
  with assms show ?thesis using wrap32_range [of j] by (auto split: if_splits)
next
  case (DblV x)
  with assms show ?thesis using double_to_int_range [of x] by (auto split: if_splits)
next
  case (BoolV b)
  with assms show ?thesis by (auto simp: int_min_def int_max_def split: if_splits)
next
  case (StrV s)
  with assms show ?thesis by (auto dest: string_to_int_range split: option.splits if_splits)
qed (use assms in auto)

lemma to_int_cases:
  "to_int spark c = Inr v \<Longrightarrow> v = Null \<or> (\<exists>i. v = IntV i)"
  by (cases c) (auto split: option.splits if_splits)

lemma to_int_in_range:
  "int_min \<le> i \<Longrightarrow> i \<le> int_max \<Longrightarrow> to_int spark (IntV i) = Inr (IntV i)"
  by simp

lemma cast_value_cases:
  "cast_value spark c = Null \<or> (\<exists>i. cast_value spark c = IntV i \<and> int_min \<le> i \<and> i \<le> int_max)"
proof (cases "to_int spark c")
  case (Inl e)
  then show ?thesis by (simp add: cast_value_def)
next
  case (Inr v)
  then show ?thesis
    using to_int_cases [OF Inr] to_int_range [of spark c] by (auto simp: cast_value_def)
qed

lemma columns_cleaned [simp]: "columns (cleaned spark D) = kept D"
  by (simp add: cleaned_def)

lemma schema_cleaned: "schema (cleaned spark D) = map (\<lambda>n. (n, kept_type D n)) (kept D)"
  by (simp add: cleaned_def)

lemma rows_cleaned:
  "set (rows (cleaned spark D)) = (\<lambda>r0. map (\<lambda>n. cleaned_cell spark D n r0) (kept D)) ` set (rows D)"
  by (simp add: cleaned_def)

lemma cell_at_cleaned:
  "cell_at (cleaned spark D) n (map (\<lambda>n. cleaned_cell spark D n r0) (kept D)) =
     (if n \<in> set (kept D) then cleaned_cell spark D n r0 else Null)"
  by (simp add: cleaned_def)

lemma kept_type_quantity [simp]: "kept_type D ''quantity'' = IntegerType"
  by (simp add: kept_type_def)

lemma cleaned_cell_quantity:
  "cleaned_cell spark D ''quantity'' r0 =
     (if cast_value spark (cell_at D ''quantity'' r0) = Null then IntV 0
      else cast_value spark (cell_at D ''quantity'' r0))"
  by (simp add: cleaned_cell_def fillable_def fill_zero_columns_def)

lemma cleaned_cell_quantity_range:
  "\<exists>i. cleaned_cell spark D ''quantity'' r0 = IntV i \<and> int_min \<le> i \<and> i \<le> int_max"
  using cast_value_cases [of spark "cell_at D ''quantity'' r0"]
  by (auto simp: cleaned_cell_quantity int_min_def int_max_def)

lemma distinct_rows_cleaned: "distinct (rows (cleaned spark D))"
  by (simp only: cleaned_def dataframe.select_convs distinct_remdups)

lemma rows_cleaned_eq:
  "rows (cleaned spark D) =
     remdups (map (\<lambda>r. map (\<lambda>n. cleaned_cell spark D n r) (kept D)) (rows D))"
  by (simp only: cleaned_def dataframe.select_convs)

lemma kept_kept: "filter (\<lambda>c. c \<in> set (kept D)) columns_to_keep = kept D"
  unfolding kept_def by (rule filter_cong) auto

lemma cell_at_cong: "columns a = columns b \<Longrightarrow> cell_at a n r = cell_at b n r"
  by (simp add: cell_at_def)

lemma cleaned_cell_fix:
  assumes "kept_type E n = kept_type D n" and "cell_at E n r = cleaned_cell spark D n r0"
  shows "cleaned_cell spark E n r = cleaned_cell spark D n r0"
proof (cases "n = ''quantity''")
  case True
  obtain i where i: "cleaned_cell spark D ''quantity'' r0 = IntV i" "int_min \<le> i" "i \<le> int_max"
    using cleaned_cell_quantity_range [of spark D r0] by blast
  then have "cast_value spark (cell_at E ''quantity'' r) = IntV i"
    using assms True by (simp add: cast_value_def)
  then show ?thesis using True i by (simp add: cleaned_cell_quantity)
next
  case False
  then show ?thesis using assms
    by (auto simp: cleaned_cell_def Let_def fillable_def split: if_splits)
qed

lemma cleaned_fixed:
  assumes s: "schema E = schema (cleaned spark D)"
    and m: "mset (rows E) = mset (rows (cleaned spark D))"
  shows "cleaned spark E = E"
proof -
  have cols: "columns E = kept D"
    using s by (simp add: columns_def schema_cleaned comp_def)
  have "kept E = filter (\<lambda>c. c \<in> set (kept D)) columns_to_keep"
    by (simp only: kept_def [of E] cols)
  then have k: "kept E = kept D"
    by (simp only: kept_kept)
  have t: "kept_type E n = kept_type D n" if "n \<in> set (kept D)" for n
  proof -
    have "map_of (schema E) n = Some (kept_type D n)"
      using that by (simp only: s schema_cleaned map_of_graph if_True)
    then show ?thesis by (simp add: kept_type_def)
  qed
  have "map (\<lambda>n. (n, kept_type E n)) (kept D) = map (\<lambda>n. (n, kept_type D n)) (kept D)"
    by (rule map_cong [OF refl]) (simp only: t)
  then have sch: "schema (cleaned spark E) = schema E"
    by (simp only: schema_cleaned k s)
  have dist: "distinct (rows E)"
    using distinct_rows_cleaned [of spark D] by (simp only: mset_eq_imp_distinct_iff [OF m])
  have sets: "set (rows E) = set (rows (cleaned spark D))"
    by (rule mset_eq_setD [OF m])
  have fixr: "map (\<lambda>n. cleaned_cell spark E n r) (kept D) = r" if "r \<in> set (rows E)" for r
  proof -
    from that sets have "r \<in> (\<lambda>r0. map (\<lambda>n. cleaned_cell spark D n r0) (kept D)) ` set (rows D)"
      by (simp only: rows_cleaned)
    then obtain r0 where r: "r = map (\<lambda>n. cleaned_cell spark D n r0) (kept D)"
      by (rule imageE)
    have "cleaned_cell spark E n r = cleaned_cell spark D n r0" if n: "n \<in> set (kept D)" for n
    proof (rule cleaned_cell_fix [OF t [OF n]])
      have "cell_at E n r = cell_at (cleaned spark D) n r"
        by (rule cell_at_cong) (simp add: cols)
      also have "\<dots> = cleaned_cell spark D n r0"
        using n by (simp only: r cell_at_cleaned if_True)
      finally show "cell_at E n r = cleaned_cell spark D n r0" .
    qed
    then have "map (\<lambda>n. cleaned_cell spark E n r) (kept D) =
        map (\<lambda>n. cleaned_cell spark D n r0) (kept D)"
      by (intro map_cong [OF refl])
    then show ?thesis by (simp only: r [symmetric])
  qed
  have ident: "map (\<lambda>r. map (\<lambda>n. cleaned_cell spark E n r) (kept D)) (rows E) = rows E"
    by (rule map_idI) (rule fixr)
  have "rows (cleaned spark E) =
      remdups (map (\<lambda>r. map (\<lambda>n. cleaned_cell spark E n r) (kept D)) (rows E))"
    by (simp only: rows_cleaned_eq k)
  also have "\<dots> = remdups (rows E)"
    by (simp only: ident)
  also have "\<dots> = rows E"
    using dist by (rule distinct_remdups_id)
  finally have "rows (cleaned spark E) = rows E" .
  with sch show ?thesis by (intro dataframe.equality) simp_all
qed

lemma cleanable_fixed:
  assumes c: "cleanable spark D" and s: "schema E = schema (cleaned spark D)"
    and m: "mset (rows E) = mset (rows (cleaned spark D))"
  shows "cleanable spark E"
proof -
  have cols: "columns E = kept D"
    using s by (simp add: columns_def schema_cleaned comp_def)
  have q: "''quantity'' \<in> set (kept D)"
    using c by (simp add: cleanable_def quantity_kept)
  have sets: "set (rows E) = set (rows (cleaned spark D))"
    by (rule mset_eq_setD [OF m])
  have "succeeds (to_int spark (cell_at E ''quantity'' r))" if "r \<in> set (rows E)" for r
  proof -
    from that sets have "r \<in> (\<lambda>r0. map (\<lambda>n. cleaned_cell spark D n r0) (kept D)) ` set (rows D)"
      by (simp only: rows_cleaned)
    then obtain r0 where r: "r = map (\<lambda>n. cleaned_cell spark D n r0) (kept D)"
      by (rule imageE)
    have "cell_at E ''quantity'' r = cell_at (cleaned spark D) ''quantity'' r"
      by (rule cell_at_cong) (simp add: cols)
    also have "\<dots> = cleaned_cell spark D ''quantity'' r0"
      using q by (simp only: r cell_at_cleaned if_True)
    finally have e: "cell_at E ''quantity'' r = cleaned_cell spark D ''quantity'' r0" .
    obtain i where "cleaned_cell spark D ''quantity'' r0 = IntV i" "int_min \<le> i" "i \<le> int_max"
      using cleaned_cell_quantity_range [of spark D r0] by blast
    then show ?thesis by (simp add: e)
  qed
  then have "casts_ok spark E" by (simp add: casts_ok_def list_all_iff)
  then show ?thesis
    using c by (simp add: cleanable_def cols quantity_kept kept_subset fill_lists_kept)
qed

subsection \<open>Claim C5: cleaning is idempotent\<close>

text \<open>
  C5. Cleaning a cleaned table gives the same table: \<open>clean (clean D) = clean D\<close>, also
  where the first run raises (the error is the result of both sides). Since the engine
  leaves the row order of a result open, the second conjunct adds that any reordering
  of the cleaned table is a fixed point of the stage as well.
\<close>

theorem cleaning_idempotent:
  "bind_err (df_clean spark D) (df_clean spark) = df_clean spark D \<and>
   (\<forall>d d'. df_clean spark D = Inr d \<and> schema d' = schema d \<and> mset (rows d') = mset (rows d)
      \<longrightarrow> df_clean spark d' = Inr d')"
proof -
  have r: "df_clean spark d' = Inr d'"
    if "df_clean spark D = Inr d" "schema d' = schema d" "mset (rows d') = mset (rows d)" for d d'
  proof -
    from that(1) have c: "cleanable spark D" and d: "d = cleaned spark D"
      by (simp_all add: df_clean_iff)
    have s: "schema d' = schema (cleaned spark D)" using that(2) d by simp
    have m: "mset (rows d') = mset (rows (cleaned spark D))" using that(3) d by simp
    have "cleanable spark d'" by (rule cleanable_fixed [OF c s m])
    then have "df_clean spark d' = Inr (cleaned spark d')" by (rule df_clean_cleaned)
    then show ?thesis by (simp only: cleaned_fixed [OF s m])
  qed
  have "bind_err (df_clean spark D) (df_clean spark) = df_clean spark D"
  proof (cases "df_clean spark D")
    case (Inl e)
    then show ?thesis by (simp add: bind_err_def)
  next
    case (Inr d)
    then show ?thesis using r [OF Inr refl refl] by (simp add: bind_err_def)
  qed
  moreover have "\<forall>d d'. df_clean spark D = Inr d \<and> schema d' = schema d \<and>
      mset (rows d') = mset (rows d) \<longrightarrow> df_clean spark d' = Inr d'"
    by (intro allI impI, elim conjE, rule r)
  ultimately show ?thesis by (rule conjI)
qed

text \<open>The table \<open>drinks\<close>: its cleaned table and the reversed one are fixed points.\<close>

theorem cleaning_idempotent_witness:
  "df_clean engine0 drinks = Inr drinks_clean \<and>
   schema (drinks_clean\<lparr>rows := rev (rows drinks_clean)\<rparr>) = schema drinks_clean \<and>
   mset (rows (drinks_clean\<lparr>rows := rev (rows drinks_clean)\<rparr>)) = mset (rows drinks_clean) \<and>
   df_clean engine0 (drinks_clean\<lparr>rows := rev (rows drinks_clean)\<rparr>) =
     Inr (drinks_clean\<lparr>rows := rev (rows drinks_clean)\<rparr>) \<and>
   bind_err (df_clean engine0 drinks) (df_clean engine0) = df_clean engine0 drinks"
proof -
  have e: "df_clean engine0 drinks = Inr drinks_clean" by code_simp
  have s: "schema (drinks_clean\<lparr>rows := rev (rows drinks_clean)\<rparr>) = schema drinks_clean"
    by simp
  have m: "mset (rows (drinks_clean\<lparr>rows := rev (rows drinks_clean)\<rparr>)) = mset (rows drinks_clean)"
    by simp
  from cleaning_idempotent [of engine0 drinks] e s m
  have "df_clean engine0 (drinks_clean\<lparr>rows := rev (rows drinks_clean)\<rparr>) =
     Inr (drinks_clean\<lparr>rows := rev (rows drinks_clean)\<rparr>)"
    by blast
  moreover from cleaning_idempotent [of engine0 drinks]
  have "bind_err (df_clean engine0 drinks) (df_clean engine0) = df_clean engine0 drinks"
    by (rule conjunct1)
  ultimately show ?thesis using e s m by blast
qed

subsection \<open>Claim C9: a failed cast of \<open>quantity\<close>\<close>

lemma to_int_non_ansi: "\<not> ansi_enabled spark \<Longrightarrow> succeeds (to_int spark c)"
  by (cases c) (auto split: option.splits)

lemma casts_ok_non_ansi: "\<not> ansi_enabled spark \<Longrightarrow> casts_ok spark D"
  by (simp add: casts_ok_def list_all_iff to_int_non_ansi)

lemma to_int_text_fails:
  "\<not> ansi_enabled spark \<Longrightarrow> string_to_int True s = None \<Longrightarrow> to_int spark (StrV s) = Inr Null"
  by simp

lemma schema_cleaned_mem:
  "(n, t) \<in> set (schema (cleaned spark D)) \<longleftrightarrow> n \<in> set (kept D) \<and> t = kept_type D n"
  by (auto simp: schema_cleaned)

lemma cleaned_cell_unfillable:
  "n \<noteq> ''quantity'' \<Longrightarrow> \<not> fillable (kept_type D n) (cell_at D n r0) \<Longrightarrow>
     cleaned_cell spark D n r0 = cell_at D n r0"
  by (simp add: cleaned_cell_def)

text \<open>
  C9, as the code has it. With the ANSI cast policy off, on every table that has the
  columns the stage names, cleaning raises nothing: the cast of \<open>quantity\<close> returns a
  value on every record, the absent marker for a text that is no number, and the result
  holds a 32-bit integer in \<open>quantity\<close> on every record. The record whose cast gave the
  absent marker is in the result with \<open>quantity = 0\<close>, and so is every other record
  with its cast value; the cells that the fill does not touch are unchanged.
\<close>

theorem quantity_cast_failure_filled:
  assumes "\<not> ansi_enabled spark" and "''quantity'' \<in> set (columns D)"
    and "fill_strict spark \<longrightarrow>
           set fill_zero_columns \<subseteq> set (columns D) \<and> set fill_undefined_columns \<subseteq> set (columns D)"
  shows "\<exists>d. df_clean spark D = Inr d \<and>
     (''quantity'', IntegerType) \<in> set (schema d) \<and>
     (\<forall>r\<in>set (rows d). \<exists>i. cell_at d ''quantity'' r = IntV i \<and> int_min \<le> i \<and> i \<le> int_max) \<and>
     (\<forall>r0\<in>set (rows D). \<exists>v. to_int spark (cell_at D ''quantity'' r0) = Inr v \<and>
        (\<forall>s. cell_at D ''quantity'' r0 = StrV s \<and> string_to_int True s = None \<longrightarrow> v = Null) \<and>
        (\<exists>r\<in>set (rows d). cell_at d ''quantity'' r = (if v = Null then IntV 0 else v) \<and>
           (\<forall>(n, t)\<in>set (schema d). n \<noteq> ''quantity'' \<longrightarrow> \<not> fillable t (cell_at D n r0) \<longrightarrow>
              cell_at d n r = cell_at D n r0)))"
proof -
  have c: "cleanable spark D"
    using assms by (simp add: cleanable_def casts_ok_non_ansi)
  have q: "''quantity'' \<in> set (kept D)"
    using assms(2) by (simp add: quantity_kept)
  have 0: "(''quantity'', IntegerType) \<in> set (schema (cleaned spark D))"
    using q by (simp add: schema_cleaned_mem)
  have 1: "\<exists>i. cell_at (cleaned spark D) ''quantity'' r = IntV i \<and> int_min \<le> i \<and> i \<le> int_max"
    if "r \<in> set (rows (cleaned spark D))" for r
  proof -
    from that obtain r0 where r: "r = map (\<lambda>n. cleaned_cell spark D n r0) (kept D)"
      by (auto simp: rows_cleaned)
    show ?thesis
      using cleaned_cell_quantity_range [of spark D r0] q by (simp add: r cell_at_cleaned)
  qed
  have 2: "\<exists>v. to_int spark (cell_at D ''quantity'' r0) = Inr v \<and>
        (\<forall>s. cell_at D ''quantity'' r0 = StrV s \<and> string_to_int True s = None \<longrightarrow> v = Null) \<and>
        (\<exists>r\<in>set (rows (cleaned spark D)).
           cell_at (cleaned spark D) ''quantity'' r = (if v = Null then IntV 0 else v) \<and>
           (\<forall>(n, t)\<in>set (schema (cleaned spark D)). n \<noteq> ''quantity'' \<longrightarrow>
              \<not> fillable t (cell_at D n r0) \<longrightarrow> cell_at (cleaned spark D) n r = cell_at D n r0))"
    if "r0 \<in> set (rows D)" for r0
  proof -
    let ?r = "map (\<lambda>n. cleaned_cell spark D n r0) (kept D)"
    have t: "to_int spark (cell_at D ''quantity'' r0) = Inr (cast_value spark (cell_at D ''quantity'' r0))"
      by (rule to_int_cast_value) (rule to_int_non_ansi [OF assms(1)])
    have f: "\<forall>s. cell_at D ''quantity'' r0 = StrV s \<and> string_to_int True s = None \<longrightarrow>
        cast_value spark (cell_at D ''quantity'' r0) = Null"
      using assms(1) by (auto simp: cast_value_def)
    have m: "?r \<in> set (rows (cleaned spark D))"
      using that by (auto simp: rows_cleaned)
    have v: "cell_at (cleaned spark D) ''quantity'' ?r =
        (if cast_value spark (cell_at D ''quantity'' r0) = Null then IntV 0
         else cast_value spark (cell_at D ''quantity'' r0))"
      using q by (simp add: cell_at_cleaned cleaned_cell_quantity)
    have o: "\<forall>(n, t)\<in>set (schema (cleaned spark D)). n \<noteq> ''quantity'' \<longrightarrow>
              \<not> fillable t (cell_at D n r0) \<longrightarrow> cell_at (cleaned spark D) n ?r = cell_at D n r0"
      by (auto simp: schema_cleaned_mem cell_at_cleaned cleaned_cell_unfillable)
    from t f m v o show ?thesis by blast
  qed
  show ?thesis
    using df_clean_cleaned [OF c] 0 1 2 by blast
qed

text \<open>
  The table \<open>products\<close> on the engine with the policy off: the record \<open>cola\<close>, whose
  \<open>quantity\<close> is \<open>500g\<close>, is in the result with \<open>quantity = 0\<close>.
\<close>

theorem quantity_cast_failure_filled_witness:
  "\<not> ansi_enabled engine0 \<and> ''quantity'' \<in> set (columns products) \<and>
   set fill_zero_columns \<subseteq> set (columns products) \<and>
   set fill_undefined_columns \<subseteq> set (columns products) \<and>
   cola \<in> set (rows products) \<and>
   cell_at products ''quantity'' cola = StrV ''500g'' \<and>
   string_to_int True ''500g'' = None \<and>
   (\<exists>d. df_clean engine0 products = Inr d \<and>
     (\<exists>r\<in>set (rows d). cell_at d ''quantity'' r = IntV 0 \<and>
        (\<forall>(n, t)\<in>set (schema d). n \<noteq> ''quantity'' \<longrightarrow> \<not> fillable t (cell_at products n cola) \<longrightarrow>
              cell_at d n r = cell_at products n cola)))"
proof -
  have a: "\<not> ansi_enabled engine0" by code_simp
  have b: "''quantity'' \<in> set (columns products)" by code_simp
  have z: "set fill_zero_columns \<subseteq> set (columns products)" by code_simp
  have u: "set fill_undefined_columns \<subseteq> set (columns products)" by code_simp
  have q: "cell_at products ''quantity'' cola = StrV ''500g''" by code_simp
  have t: "string_to_int True ''500g'' = None" by code_simp
  have m: "cola \<in> set (rows products)" by (simp add: products_def)
  from z u have zu: "fill_strict engine0 \<longrightarrow>
      set fill_zero_columns \<subseteq> set (columns products) \<and>
      set fill_undefined_columns \<subseteq> set (columns products)" by simp
  from quantity_cast_failure_filled [OF a b zu]
  obtain d where d: "df_clean engine0 products = Inr d"
    and f: "\<forall>r0\<in>set (rows products). \<exists>v. to_int engine0 (cell_at products ''quantity'' r0) = Inr v \<and>
        (\<forall>s. cell_at products ''quantity'' r0 = StrV s \<and> string_to_int True s = None \<longrightarrow> v = Null) \<and>
        (\<exists>r\<in>set (rows d). cell_at d ''quantity'' r = (if v = Null then IntV 0 else v) \<and>
           (\<forall>(n, t)\<in>set (schema d). n \<noteq> ''quantity'' \<longrightarrow> \<not> fillable t (cell_at products n r0) \<longrightarrow>
              cell_at d n r = cell_at products n r0))"
    by blast
  from f m obtain v r where "v = Null" "r \<in> set (rows d)"
     "cell_at d ''quantity'' r = (if v = Null then IntV 0 else v)"
     "\<forall>(n, t)\<in>set (schema d). n \<noteq> ''quantity'' \<longrightarrow> \<not> fillable t (cell_at products n cola) \<longrightarrow>
              cell_at d n r = cell_at products n cola"
    using q t by blast
  then have "\<exists>r\<in>set (rows d). cell_at d ''quantity'' r = IntV 0 \<and>
        (\<forall>(n, t)\<in>set (schema d). n \<noteq> ''quantity'' \<longrightarrow> \<not> fillable t (cell_at products n cola) \<longrightarrow>
              cell_at d n r = cell_at products n cola)"
    by auto
  with a b z u m q t d show ?thesis by blast
qed

text \<open>
  The claim as stated fails with the ANSI policy on, which the script does not switch
  off: the cast of \<open>500g\<close> raises, and the cleaning stage returns the error.
\<close>

theorem quantity_cast_raises_counterexample:
  "cell_at products ''quantity'' cola = StrV ''500g'' \<and>
   df_clean engine_ansi products = Inl (NumberFormatException ''CAST_INVALID_INPUT'')"
  by code_simp

subsection \<open>Claim C3: what cleaning leaves in every retained column\<close>

lemma kept_in_columns: "n \<in> set (kept D) \<Longrightarrow> n \<in> set (columns D)"
  by (simp add: kept_def)

lemma schema_lookup:
  assumes "n \<in> set (columns D)"
  shows "\<exists>t. map_of (schema D) n = Some t \<and> (n, t) \<in> set (schema D)"
proof -
  from assms have "n \<in> fst ` set (schema D)" by (simp add: columns_def)
  then obtain t where "map_of (schema D) n = Some t"
    by (cases "map_of (schema D) n") (auto simp: map_of_eq_None_iff)
  then show ?thesis by (auto dest: map_of_SomeD)
qed

lemma kept_type_match:
  assumes "fill_types_match D" and "n \<in> set (kept D)"
  shows "(n \<in> set fill_zero_columns \<longrightarrow> is_numeric (kept_type D n)) \<and>
         (n \<in> set fill_undefined_columns \<longrightarrow> kept_type D n = StringType)"
proof (cases "n = ''quantity''")
  case True
  then show ?thesis by (simp add: is_numeric_def fill_undefined_columns_def)
next
  case False
  from assms(2) obtain t where t: "map_of (schema D) n = Some t" "(n, t) \<in> set (schema D)"
    using schema_lookup [OF kept_in_columns] by blast
  from assms(1) t(2) have "(n \<in> set fill_zero_columns \<and> n \<noteq> ''quantity'' \<longrightarrow> is_numeric t) \<and>
      (n \<in> set fill_undefined_columns \<longrightarrow> t = StringType)"
    by (auto simp: fill_types_match_def list_all_iff)
  then show ?thesis using False t(1) by (simp add: kept_type_def)
qed

lemma cleaned_cell_match:
  assumes "fill_types_match D" and "n \<in> set (kept D)"
  shows "cleaned_cell spark D n r0 =
    (let c = (if n = ''quantity'' then cast_value spark (cell_at D n r0) else cell_at D n r0)
     in if \<not> fillable (kept_type D n) c then c
        else if n \<in> set fill_zero_columns
          then (if kept_type D n = DoubleType then DblV (Fin 0) else IntV 0)
        else if n \<in> set fill_undefined_columns then StrV ''undefined''
        else c)"
  using kept_type_match [OF assms]
  by (auto simp: cleaned_cell_def Let_def is_numeric_def)

text \<open>
  C3, as the code has it, on the tables whose fill-list columns have the type of their
  fill value. The cleaned table has the columns to keep that the input has, its records
  are distinct, every record has a cell for each column, every record is the image of
  an input record and every input record has its image in the result. In the image the
  \<open>quantity\<close> is cast; then a cell that is absent (in a double column also one that is
  NaN) is \<open>0\<close> in the columns of the zero list, \<open>undefined\<close> in the columns of the
  \<open>undefined\<close> list, and is left as it is, absent, in every other retained column;
  every other cell is unchanged.
\<close>

theorem cleaned_cells_characterised:
  assumes "df_clean spark D = Inr d" and "fill_types_match D"
  shows "columns d = filter (\<lambda>c. c \<in> set (columns D)) columns_to_keep \<and>
    distinct (rows d) \<and>
    (let image = (\<lambda>r0 r. \<forall>(n, t)\<in>set (schema d).
           \<exists>c. (if n = ''quantity'' then to_int spark (cell_at D n r0) = Inr c
                 else c = cell_at D n r0) \<and>
             cell_at d n r =
               (if \<not> fillable t c then c
                else if n \<in> set fill_zero_columns
                  then (if t = DoubleType then DblV (Fin 0) else IntV 0)
                else if n \<in> set fill_undefined_columns then StrV ''undefined''
                else c))
     in (\<forall>r\<in>set (rows d). length r = length (columns d) \<and> (\<exists>r0\<in>set (rows D). image r0 r)) \<and>
        (\<forall>r0\<in>set (rows D). \<exists>r\<in>set (rows d). image r0 r))"
proof -
  from assms(1) have d: "d = cleaned spark D" and c: "cleanable spark D"
    by (simp_all add: df_clean_iff)
  define image where "image = (\<lambda>r0 r. \<forall>(n, t)\<in>set (schema d).
           \<exists>c. (if n = ''quantity'' then to_int spark (cell_at D n r0) = Inr c
                 else c = cell_at D n r0) \<and>
             cell_at d n r =
               (if \<not> fillable t c then c
                else if n \<in> set fill_zero_columns
                  then (if t = DoubleType then DblV (Fin 0) else IntV 0)
                else if n \<in> set fill_undefined_columns then StrV ''undefined''
                else c))"
  have 1: "columns d = filter (\<lambda>c. c \<in> set (columns D)) columns_to_keep"
    by (simp add: d kept_def)
  have 2: "distinct (rows d)"
    unfolding d by (rule distinct_rows_cleaned)
  have im: "image r0 (map (\<lambda>n. cleaned_cell spark D n r0) (kept D))"
    if r0: "r0 \<in> set (rows D)" for r0
    unfolding image_def
  proof (intro ballI, clarify)
    fix n t
    assume "(n, t) \<in> set (schema d)"
    then have n: "n \<in> set (kept D)" and t: "t = kept_type D n"
      by (simp_all add: d schema_cleaned_mem)
    have cast: "to_int spark (cell_at D ''quantity'' r0) =
        Inr (cast_value spark (cell_at D ''quantity'' r0))"
    proof (rule to_int_cast_value)
      from c r0 show "succeeds (to_int spark (cell_at D ''quantity'' r0))"
        by (simp add: cleanable_def casts_ok_def list_all_iff)
    qed
    have cell: "cell_at d n (map (\<lambda>n. cleaned_cell spark D n r0) (kept D)) = cleaned_cell spark D n r0"
      using n by (simp add: d cell_at_cleaned)
    show "\<exists>c. (if n = ''quantity'' then to_int spark (cell_at D n r0) = Inr c
                 else c = cell_at D n r0) \<and>
             cell_at d n (map (\<lambda>n. cleaned_cell spark D n r0) (kept D)) =
               (if \<not> fillable t c then c
                else if n \<in> set fill_zero_columns
                  then (if t = DoubleType then DblV (Fin 0) else IntV 0)
                else if n \<in> set fill_undefined_columns then StrV ''undefined''
                else c)"
    proof (cases "n = ''quantity''")
      case True
      show ?thesis
        apply (rule exI [of _ "cast_value spark (cell_at D ''quantity'' r0)"])
        using True cast cleaned_cell_match [OF assms(2) n, of spark r0] cell t
        by (simp add: Let_def)
    next
      case False
      show ?thesis
        apply (rule exI [of _ "cell_at D n r0"])
        using False cleaned_cell_match [OF assms(2) n, of spark r0] cell t
        by (simp add: Let_def)
    qed
  qed
  have 3: "length r = length (columns d) \<and> (\<exists>r0\<in>set (rows D). image r0 r)"
    if "r \<in> set (rows d)" for r
  proof -
    from that obtain r0 where r0: "r0 \<in> set (rows D)"
      and r: "r = map (\<lambda>n. cleaned_cell spark D n r0) (kept D)"
      by (auto simp: d rows_cleaned)
    have "length r = length (columns d)" by (simp add: r d)
    moreover have "image r0 r" unfolding r by (rule im [OF r0])
    ultimately show ?thesis using r0 by blast
  qed
  have 4: "\<exists>r\<in>set (rows d). image r0 r" if r0: "r0 \<in> set (rows D)" for r0
  proof -
    have "map (\<lambda>n. cleaned_cell spark D n r0) (kept D) \<in> set (rows d)"
      using r0 by (auto simp: d rows_cleaned)
    with im [OF r0] show ?thesis by blast
  qed
  have 5: "\<forall>r\<in>set (rows d). length r = length (columns d) \<and> (\<exists>r0\<in>set (rows D). image r0 r)"
    using 3 by blast
  have 6: "\<forall>r0\<in>set (rows D). \<exists>r\<in>set (rows d). image r0 r"
    using 4 by blast
  show ?thesis
    unfolding Let_def
    apply (intro conjI)
       apply (rule 1)
      apply (rule 2)
     apply (rule 5 [unfolded image_def])
    apply (rule 6 [unfolded image_def])
    done
qed

text \<open>On \<open>drinks\<close>: the retained columns, and the records of the result are distinct.\<close>

theorem cleaned_cells_characterised_witness:
  "df_clean engine0 drinks = Inr drinks_clean \<and> fill_types_match drinks \<and>
   columns drinks_clean = filter (\<lambda>c. c \<in> set (columns drinks)) columns_to_keep \<and>
   distinct (rows drinks_clean)"
proof -
  have e: "df_clean engine0 drinks = Inr drinks_clean" by code_simp
  have m: "fill_types_match drinks" by code_simp
  from cleaned_cells_characterised [OF e m]
  have "columns drinks_clean = filter (\<lambda>c. c \<in> set (columns drinks)) columns_to_keep"
    and "distinct (rows drinks_clean)"
    by (rule conjunct1, rule conjunct2 [THEN conjunct1])
  with e m show ?thesis by blast
qed

text \<open>
  The claim as stated fails on \<open>nutriscore_score\<close>, which is retained and in no fill
  list: the absent score of the second record of \<open>drinks\<close> is absent after cleaning,
  with either cast policy.
\<close>

theorem retained_column_absent_counterexample:
  "''nutriscore_score'' \<in> set columns_to_keep \<and>
   column_cells (df_clean engine0 drinks) ''nutriscore_score'' = Inr [IntV 3, Null] \<and>
   column_cells (df_clean engine_ansi drinks) ''nutriscore_score'' = Inr [IntV 3, Null]"
  by code_simp

subsection \<open>Claim C4: the columns of the fill lists\<close>

text \<open>
  C4 fails on \<open>drinks_text\<close>, where \<open>serving_quantity\<close>, a column of the zero list, was
  read as text: the fill with \<open>0\<close> passes over a text column, and the absent cell of the
  second record is still absent after cleaning, with either cast policy. Only
  \<open>quantity\<close> is cast to a number before the fill.
\<close>

theorem fill_list_text_column_absent:
  "''serving_quantity'' \<in> set fill_zero_columns \<and>
   column_cells (Inr drinks_text) ''serving_quantity'' = Inr [StrV ''250 ml'', Null] \<and>
   column_cells (df_clean engine0 drinks_text) ''serving_quantity'' = Inr [StrV ''250 ml'', Null] \<and>
   column_cells (df_clean engine_ansi drinks_text) ''serving_quantity'' = Inr [StrV ''250 ml'', Null]"
  by code_simp

section \<open>Properties of the outlier detection\<close>

lemma or3_Some: "or3 (Some a) (Some b) = Some (a \<or> b)"
  by (cases a; cases b) simp_all

lemma flagged_iff:
  "or3 (lt3 c lb) (gt3 c ub) = Some True \<longleftrightarrow>
     (\<exists>v. as_double c = Some v \<and> (dless v lb \<or> dless ub v))"
  by (cases "as_double c") (simp_all add: lt3_def gt3_def or3_Some)



lemma outliers_of_Inr:
  assumes "outliers_of spark df c = Inr out"
  shows "\<exists>lb ub. out = filter_df (\<lambda>r. or3 (lt3 (cell_at df c r) lb) (gt3 (cell_at df c r) ub)) df"
proof -
  from assms obtain qs where qs: "approxQuantile spark df c [0.25, 0.75] 0.01 = Inr qs"
    by (cases "approxQuantile spark df c [0.25, 0.75] 0.01") (auto simp: outliers_of_def)
  from assms qs obtain q1 where q1: "getitem qs 0 = Inr q1"
    by (cases "getitem qs 0") (auto simp: outliers_of_def)
  from assms qs q1 obtain q3 where q3: "getitem qs 1 = Inr q3"
    by (cases "getitem qs 1") (auto simp: outliers_of_def)
  from assms qs q1 q3 show ?thesis
    by (auto simp: outliers_of_def Let_def split: if_splits)
qed

lemma dless_irrefl [simp]: "\<not> dless v v"
  by (cases v) simp_all


lemma dless_asym: "dless v w \<Longrightarrow> \<not> dless w v"
  by (cases v; cases w) auto




subsection \<open>Claim C6: the outliers of a column are the records outside the fences\<close>



subsection \<open>Claim C10: an absent value is no outlier\<close>

text \<open>
  C10. Whatever the bounds are, a record whose value in the column is absent is not in
  the frame stored for the column, and every record of that frame is a record of the
  table with a value in the column. This holds for every column the loop scans, among
  them \<open>nutriscore_score\<close> and \<open>ecoscore_score\<close>, whose absences the cleaning keeps.
\<close>

theorem absent_value_never_outlier:
  assumes "outliers_of spark df column = Inr out"
  shows "(\<forall>r\<in>set (rows df). cell_at df column r = Null \<longrightarrow> r \<notin> set (rows out)) \<and>
         (\<forall>r\<in>set (rows out). r \<in> set (rows df) \<and> cell_at df column r \<noteq> Null)"
proof -
  from outliers_of_Inr [OF assms] obtain lb ub
    where "out = filter_df (\<lambda>r. or3 (lt3 (cell_at df column r) lb)
                                     (gt3 (cell_at df column r) ub)) df"
    by blast
  then have r: "rows out = filter (\<lambda>r. \<exists>v. as_double (cell_at df column r) = Some v \<and>
                (dless v lb \<or> dless ub v)) (rows df)"
    by (simp add: filter_df_def flagged_iff)
  show ?thesis by (auto simp: r)
qed

text \<open>On \<open>scores_frame\<close>: the record without a score is not among the outliers.\<close>

theorem absent_value_never_outlier_witness:
  "outliers_of engine0 scores_frame ''nutriscore_score'' =
     Inr (scores_frame\<lparr>rows := [[StrV ''h'', IntV 20]]\<rparr>) \<and>
   [StrV ''i'', Null] \<in> set (rows scores_frame) \<and>
   cell_at scores_frame ''nutriscore_score'' [StrV ''i'', Null] = Null \<and>
   [StrV ''i'', Null] \<notin> set (rows (scores_frame\<lparr>rows := [[StrV ''h'', IntV 20]]\<rparr>)) \<and>
   cell_at scores_frame ''nutriscore_score'' [StrV ''h'', IntV 20] \<noteq> Null"
proof -
  have o: "outliers_of engine0 scores_frame ''nutriscore_score'' =
     Inr (scores_frame\<lparr>rows := [[StrV ''h'', IntV 20]]\<rparr>)" by code_simp
  have i: "[StrV ''i'', Null] \<in> set (rows scores_frame)" by (simp add: scores_frame_def)
  have n: "cell_at scores_frame ''nutriscore_score'' [StrV ''i'', Null] = Null" by code_simp
  have h: "[StrV ''h'', IntV 20] \<in> set (rows (scores_frame\<lparr>rows := [[StrV ''h'', IntV 20]]\<rparr>))"
    by simp
  from absent_value_never_outlier [OF o] i n
  have 1: "[StrV ''i'', Null] \<notin> set (rows (scores_frame\<lparr>rows := [[StrV ''h'', IntV 20]]\<rparr>))"
    by blast
  from absent_value_never_outlier [OF o] h
  have 2: "cell_at scores_frame ''nutriscore_score'' [StrV ''h'', IntV 20] \<noteq> Null"
    by blast
  from o i n 1 2 show ?thesis by blast
qed

subsection \<open>Claim C7: the degenerate distribution\<close>




section \<open>Properties of the derived columns and the statistics\<close>




text \<open>
  The cleaned frame has none of the columns that the projection of line 60 leaves out,
  among them \<open>categories_tags\<close> and \<open>energy_100g\<close>: the statements of lines 109, 124 and
  127 cannot resolve them, and the script ends at line 109 on every table.
\<close>

lemma cleaned_lacks_column:
  assumes "df_clean spark D = Inr d" and "n \<notin> set columns_to_keep"
  shows "col d n = Inl (AnalysisException n)" and "map_of (schema d) n = None"
proof -
  from assms(1) have d: "d = cleaned spark D" by (simp add: df_clean_iff)
  have "n \<notin> set (kept D)" using assms(2) by (simp add: kept_def)
  then show "map_of (schema d) n = None" by (simp add: d schema_cleaned map_of_graph)
  then show "col d n = Inl (AnalysisException n)" by (simp add: col_def)
qed

lemma main_category_on_cleaned:
  "df_clean spark D = Inr d \<Longrightarrow>
     with_main_category spark d = Inl (AnalysisException ''categories_tags'')"
  by (simp add: with_main_category_def cleaned_lacks_column columns_to_keep_def)

lemma nutrition_score_on_cleaned:
  "df_clean spark D = Inr d \<Longrightarrow>
     with_nutrition_score spark d = Inl (AnalysisException ''energy_100g'')"
  by (simp add: with_nutrition_score_def cleaned_lacks_column columns_to_keep_def)

lemma stats_on_cleaned:
  "df_clean spark D = Inr d \<Longrightarrow> stats spark d = Inl (AnalysisException ''main_category'')"
  by (simp add: stats_def cleaned_lacks_column columns_to_keep_def)

lemma script_raises: "\<not> succeeds (script spark D)"
proof (cases "df_clean spark D")
  case (Inl e)
  then show ?thesis by (simp add: script_def)
next
  case (Inr d)
  show ?thesis
  proof (cases "outliers_loop spark d numeric_columns Map.empty")
    case (Inl e)
    with Inr show ?thesis by (simp add: script_def)
  next
    case o: (Inr m)
    with Inr show ?thesis by (simp add: script_def main_category_on_cleaned [OF Inr])
  qed
qed

subsection \<open>Claim C1: the main category\<close>




subsection \<open>Claim C2: the nutrition score\<close>

text \<open>
  C2 fails on the script's own frame: \<open>energy_100g\<close> is not among the columns to keep,
  so on the cleaned table of \<open>drinks\<close> the statement of line 124 raises, with either
  policy, and no record gets a score. Where the three columns are present, as on the
  table \<open>drinks\<close> before the projection, the score of the record with energy 100,
  fiber 5 and sugars 20 is 115, and absent where an operand is absent.
\<close>

theorem nutrition_score_column_dropped:
  "''energy_100g'' \<notin> set columns_to_keep \<and>
   cleaned_then with_nutrition_score engine0 drinks = Inl (AnalysisException ''energy_100g'') \<and>
   cleaned_then with_nutrition_score engine_ansi drinks = Inl (AnalysisException ''energy_100g'') \<and>
   column_cells (with_nutrition_score engine0 drinks) ''nutrition_score'' =
     Inr [DblV (Fin 115), Null]"
  by code_simp

subsection \<open>Claim C8: the statistics by category\<close>

text \<open>
  C8 fails on the script's own frame: \<open>categories_tags\<close> and \<open>energy_100g\<close> are not
  among the columns to keep, so on the cleaned table of \<open>snacks\<close> line 109 raises, there
  is no \<open>main_category\<close> to group by, and line 127 raises as well, with either policy.
  On a frame that has the four columns the mean energy of the two records of
  \<open>snacks\<close> with energy 100 and 200 is 150.
\<close>

theorem category_stats_columns_dropped:
  "''categories_tags'' \<notin> set columns_to_keep \<and> ''energy_100g'' \<notin> set columns_to_keep \<and>
   cleaned_then with_main_category engine0 snacks = Inl (AnalysisException ''categories_tags'') \<and>
   cleaned_then stats engine0 snacks = Inl (AnalysisException ''main_category'') \<and>
   cleaned_then stats engine_ansi snacks = Inl (AnalysisException ''main_category'') \<and>
   stats engine0 snacks_frame =
     Inr \<lparr>schema = [(''main_category'', StringType), (''avg_energy'', DoubleType),
                    (''avg_sugars'', DoubleType), (''avg_fiber'', DoubleType)],
          rows = [[StrV ''snacks'', DblV (Fin 150), DblV (Fin 2), DblV (Fin 3)]]\<rparr>"
  by code_simp

end
